theory Spec2Isabelle
  imports Complex_Main
begin

section \<open>JavaScript string primitives\<close>

text \<open>
  A JavaScript string is a sequence of UTF-16 code units. The model uses \<^typ>\<open>string\<close>:
  each \<^typ>\<open>char\<close> is one code unit in the range 0..255 (the Basic Latin and Latin-1
  blocks), so \<open>length\<close> is the \<open>.length\<close> of the source. On that range
  \<open>String.prototype.trim\<close> removes TAB, LF, VT, FF, CR, SP and NBSP, and
  \<open>toLowerCase\<close> maps A..Z and the Latin-1 capitals (all of 0xC0..0xDE but the
  multiplication sign 0xD7) to the code unit 32 above.
\<close>

definition isWhiteSpace :: "char \<Rightarrow> bool" where
  "isWhiteSpace c = (of_char c \<in> {9, 10, 11, 12, 13, 32, 160 :: nat})"

definition trim :: "string \<Rightarrow> string" where
  "trim s = rev (dropWhile isWhiteSpace (rev (dropWhile isWhiteSpace s)))"

definition lowerChar :: "char \<Rightarrow> char" where
  "lowerChar c = (let n = (of_char c :: nat) in
     if (65 \<le> n \<and> n \<le> 90) \<or> (192 \<le> n \<and> n \<le> 222 \<and> n \<noteq> 215)
     then char_of (n + 32) else c)"

definition toLowerCase :: "string \<Rightarrow> string" where
  "toLowerCase s = map lowerChar s"

text \<open>\<open>s.lastIndexOf(c)\<close> for a one-character needle: the last index holding it, or -1.\<close>

fun lastIndexOf :: "string \<Rightarrow> char \<Rightarrow> int" where
  "lastIndexOf [] c = -1"
| "lastIndexOf (x # xs) c =
     (let r = lastIndexOf xs c in
      if r \<ge> 0 then r + 1 else if x = c then 0 else -1)"

text \<open>\<open>s.slice(i)\<close>: a negative start counts from the end, clamped at 0.\<close>

definition slice_from :: "string \<Rightarrow> int \<Rightarrow> string" where
  "slice_from s i =
     (if i < 0 then drop (nat (max 0 (int (length s) + i))) s else drop (nat i) s)"

section \<open>Attachment uploader (FileUpload)\<close>

definition ALLOWED_EXTENSIONS :: "string list" where
  "ALLOWED_EXTENSIONS =
     [''.png'', ''.jpg'', ''.jpeg'', ''.gif'', ''.webp'',
      ''.pdf'', ''.txt'', ''.log'', ''.json'', ''.csv'']"

definition MAX_FILE_SIZE :: nat where
  "MAX_FILE_SIZE = 10 * 1024 * 1024"

definition MAX_FILES :: nat where
  "MAX_FILES = 3"

definition getExtension :: "string \<Rightarrow> string" where
  "getExtension name =
     (let dot = lastIndexOf name (CHR ''.'') in
      if dot \<ge> 0 then toLowerCase (slice_from name dot) else [])"

text \<open>
  A browser \<open>File\<close>: \<open>file_ref\<close> stands for the identity of the object
  (the source compares \<open>p.file === file\<close>), the other two fields are
  \<open>File.name\<close> and \<open>File.size\<close>.
\<close>

record js_file =
  file_ref :: nat
  file_name :: string
  file_size :: nat

record attachment_meta =
  att_id :: string
  att_name :: string
  stored_name :: string
  att_type :: string
  att_size :: nat
  storage :: string
  path :: string

datatype pending_status = Uploading | Done | Error

record pending_file =
  p_file :: js_file
  p_status :: pending_status
  p_meta :: "attachment_meta option"
  p_error :: "string option"

text \<open>
  The three messages \<open>setError\<close> can receive: "Maximum 3 files allowed",
  "File type '<ext>' is not allowed" and "<name> exceeds 10.0 MB limit".
\<close>

datatype upload_error =
  MaxFilesReached
| TypeNotAllowed string
| SizeExceeded string

text \<open>
  The component's state together with the controlled \<open>attachments\<close> prop, which the
  caller owns and \<open>onChange\<close> replaces. \<open>requests\<close> logs the calls of
  \<open>api.uploadAttachment\<close> in the order they are issued.
\<close>

record uploader =
  attachments :: "attachment_meta list"
  pending :: "pending_file list"
  upload_error :: "upload_error option"
  requests :: "js_file list"

text \<open>The outcome of one upload: rejected with a message, or fulfilled with the metadata.\<close>

type_synonym upload_outcome = "string + attachment_meta"

text \<open>
  A batch in flight: the \<open>attachments\<close> value the callback closed over, the files of the
  batch, and the slots of \<open>Promise.allSettled\<close>, one per file, in the order of the batch.
\<close>

record upload_run =
  captured :: "attachment_meta list"
  batch :: "js_file list"
  results :: "upload_outcome option list"

definition validate_file :: "js_file \<Rightarrow> upload_error option" where
  "validate_file f =
     (let ext = getExtension (file_name f) in
      if ext \<notin> set ALLOWED_EXTENSIONS then Some (TypeNotAllowed ext)
      else if file_size f > MAX_FILE_SIZE then Some (SizeExceeded (file_name f))
      else None)"

text \<open>The validation loop: it returns at the first file that fails.\<close>

fun validate_batch :: "js_file list \<Rightarrow> upload_error option" where
  "validate_batch [] = None"
| "validate_batch (f # fs) =
     (case validate_file f of Some e \<Rightarrow> Some e | None \<Rightarrow> validate_batch fs)"

definition new_pending :: "js_file \<Rightarrow> pending_file" where
  "new_pending f = \<lparr>p_file = f, p_status = Uploading, p_meta = None, p_error = None\<rparr>"

text \<open>
  \<open>uploadFiles\<close> up to its \<open>await\<close>: the count check, the truncation, the validation
  loop, the pending entries and the uploads issued. No run is returned when it has
  returned early.
\<close>

definition uploadFiles_start :: "js_file list \<Rightarrow> uploader \<Rightarrow> uploader \<times> upload_run option" where
  "uploadFiles_start files u =
     (let u0 = u\<lparr>upload_error := None\<rparr>;
          remaining = int MAX_FILES - int (length (attachments u))
      in if remaining \<le> 0 then (u0\<lparr>upload_error := Some MaxFilesReached\<rparr>, None)
         else let b = take (nat remaining) files
              in case validate_batch b of
                   Some e \<Rightarrow> (u0\<lparr>upload_error := Some e\<rparr>, None)
                 | None \<Rightarrow>
                     (u0\<lparr>pending := pending u0 @ map new_pending b,
                         requests := requests u0 @ b\<rparr>,
                      Some \<lparr>captured = attachments u, batch = b,
                            results = replicate (length b) None\<rparr>))"

definition mark_pending :: "js_file \<Rightarrow> upload_outcome \<Rightarrow> pending_file \<Rightarrow> pending_file" where
  "mark_pending f out p =
     (if p_file p = f
      then (case out of
              Inr m \<Rightarrow> p\<lparr>p_status := Done, p_meta := Some m\<rparr>
            | Inl msg \<Rightarrow> p\<lparr>p_status := Error, p_error := Some msg\<rparr>)
      else p)"

text \<open>
  The upload of the file at index \<open>i\<close> settles with \<open>out\<close>: its pending entry is
  marked and its slot is filled. A promise settles once, so a slot that is filled stays.
\<close>

definition upload_settled ::
  "nat \<Rightarrow> upload_outcome \<Rightarrow> uploader \<times> upload_run \<Rightarrow> uploader \<times> upload_run" where
  "upload_settled i out ur =
     (let u = fst ur; r = snd ur in
      if i < length (batch r) \<and> i < length (results r) \<and> results r ! i = None
      then (u\<lparr>pending := map (mark_pending (batch r ! i) out) (pending u)\<rparr>,
            r\<lparr>results := (results r)[i := Some out]\<rparr>)
      else ur)"

definition all_settled :: "upload_run \<Rightarrow> bool" where
  "all_settled r = list_all (\<lambda>x. x \<noteq> None) (results r)"

definition is_fulfilled :: "upload_outcome option \<Rightarrow> bool" where
  "is_fulfilled x = (case x of Some (Inr m) \<Rightarrow> True | _ \<Rightarrow> False)"

definition fulfilled_value :: "upload_outcome option \<Rightarrow> attachment_meta list" where
  "fulfilled_value x = (case x of Some (Inr m) \<Rightarrow> [m] | _ \<Rightarrow> [])"

text \<open>The fulfilled results, in the order of the slots: \<open>results.filter(...).map(r => r.value)\<close>.\<close>

definition successful :: "upload_outcome option list \<Rightarrow> attachment_meta list" where
  "successful rs = concat (map fulfilled_value (filter is_fulfilled rs))"

text \<open>After the \<open>await\<close>: \<open>onChange\<close> is called once if anything was uploaded.\<close>

definition uploadFiles_finish :: "uploader \<times> upload_run \<Rightarrow> uploader" where
  "uploadFiles_finish ur =
     (let u = fst ur; r = snd ur; ok = successful (results r) in
      if length ok > 0 then u\<lparr>attachments := captured r @ ok\<rparr> else u)"

text \<open>
  One call of \<open>uploadFiles\<close> run to its end: \<open>outs ! i\<close> is the outcome of the upload of
  the file at index \<open>i\<close> and \<open>order\<close> the order in which the uploads settle. The result
  is \<open>None\<close> when some upload never settles, since the \<open>await\<close> then never returns.
\<close>

definition uploadFiles ::
  "js_file list \<Rightarrow> upload_outcome list \<Rightarrow> nat list \<Rightarrow> uploader \<Rightarrow> uploader option" where
  "uploadFiles files outs order u =
     (case uploadFiles_start files u of
        (u1, None) \<Rightarrow> Some u1
      | (u1, Some r) \<Rightarrow>
          (let ur = fold (\<lambda>i. upload_settled i (outs ! i)) order (u1, r) in
           if all_settled (snd ur) then Some (uploadFiles_finish ur) else None))"

text \<open>The timer two seconds later, and the removal of an attachment by the caller.\<close>

definition cleanup_pending :: "uploader \<Rightarrow> uploader" where
  "cleanup_pending u = u\<lparr>pending := filter (\<lambda>p. p_status p = Uploading) (pending u)\<rparr>"

definition removeAttachment :: "string \<Rightarrow> uploader \<Rightarrow> uploader" where
  "removeAttachment i u = u\<lparr>attachments := filter (\<lambda>a. att_id a \<noteq> i) (attachments u)\<rparr>"

section \<open>Feedback page (FeedbackPage)\<close>

subsection \<open>Data\<close>

datatype feedback_type =
  feature_request | bug_report | model_request | general | security_report | performance_issue

datatype feedback_status =
  status_open | under_review | needs_info | in_progress | completed | shipped | rejected
| duplicate

datatype feedback_priority = low | medium | high | critical

datatype sort_mode = recent | popular | oldest

text \<open>The value of a filter: the string "all" or one value of the enumeration.\<close>

datatype 'a filter_value = filter_all | only 'a

text \<open>
  Modelled from the spec: the declarations of \<open>FeedbackItem\<close> and
  \<open>FeedbackComment\<close>, which the page imports from the API module. The records hold
  the attributes the data model lists, under the names the page reads them by; counts are
  integers.
\<close>

record feedback_item =
  item_id :: string
  item_type :: feedback_type
  item_title :: string
  item_description :: string
  item_status :: feedback_status
  item_priority :: "feedback_priority option"
  upvotes :: int
  user_has_upvoted :: bool
  comment_count :: int
  model_name :: "string option"
  model_provider :: "string option"
  admin_response :: "string option"
  item_user_name :: "string option"
  item_created_at :: string

record feedback_comment =
  comment_id :: string
  comment_text :: string
  comment_user_name :: "string option"
  is_admin :: bool
  created_at :: string

text \<open>
  Modelled from the spec: the authenticated actor of the session provider; the page reads
  its name and its email, and \<open>None\<close> stands for no actor.
\<close>

record auth_user =
  user_name :: string
  user_email :: string

datatype toast_variant = success | error

record toast =
  toast_id :: nat
  message :: string
  variant :: toast_variant

record list_query =
  q_type :: "feedback_type filter_value"
  q_status :: "feedback_status filter_value"
  q_priority :: "feedback_priority filter_value"
  q_sortBy :: sort_mode
  q_search :: string
  q_limit :: int
  q_offset :: int

text \<open>The requests the page sends to the API.\<close>

datatype api_call =
  ListFeedback list_query
| GetFeedbackSummary
| GetFeedbackComments string
| AddFeedbackComment string string "string option"
| ToggleFeedbackUpvote string

text \<open>
  What the trace records, in the order in which the handlers make the calls: every
  request sent, and every call of the setters of the comment cache and of the comment
  drafts.
\<close>

datatype effect =
  Request api_call
| CommentsWritten string "feedback_comment list"
| DraftWritten string string

text \<open>
  The state of the page. A call of a state setter takes effect where the handler makes it.
  \<open>debounce\<close> is the timeout of the search effect: the milliseconds left until it
  fires, or \<open>None\<close> when none is pending. \<open>toastId\<close> is the module-level counter
  \<open>_toastId\<close>.
\<close>

record page_state =
  items :: "feedback_item list"
  listTotal :: int
  isLoading :: bool
  typeFilter :: "feedback_type filter_value"
  statusFilter :: "feedback_status filter_value"
  priorityFilter :: "feedback_priority filter_value"
  sortBy :: sort_mode
  searchInput :: string
  searchValue :: string
  page :: int
  debounce :: "nat option"
  expandedId :: "string option"
  commentsById :: "string \<rightharpoonup> feedback_comment list"
  commentDrafts :: "string \<rightharpoonup> string"
  commentLoadingId :: "string option"
  upvoteLoadingId :: "string option"
  toasts :: "toast list"
  toastId :: nat
  trace :: "effect list"

definition PAGE_SIZE :: int where
  "PAGE_SIZE = 12"

definition DEBOUNCE_MS :: nat where
  "DEBOUNCE_MS = 400"

text \<open>
  The state after the first render with no query string: the search effect has run once,
  so its timeout is pending.
\<close>

definition initial_page :: page_state where
  "initial_page =
     \<lparr>items = [], listTotal = 0, isLoading = True,
      typeFilter = filter_all, statusFilter = filter_all, priorityFilter = filter_all,
      sortBy = recent, searchInput = [], searchValue = [], page = 0,
      debounce = Some DEBOUNCE_MS, expandedId = None,
      commentsById = Map.empty, commentDrafts = Map.empty,
      commentLoadingId = None, upvoteLoadingId = None,
      toasts = [], toastId = 0, trace = []\<rparr>"

subsection \<open>Toasts and requests\<close>

definition pushToast :: "string \<Rightarrow> toast_variant \<Rightarrow> page_state \<Rightarrow> page_state" where
  "pushToast msg v s =
     (let i = toastId s + 1 in
      s\<lparr>toastId := i, toasts := toasts s @ [\<lparr>toast_id = i, message = msg, variant = v\<rparr>]\<rparr>)"

definition dismissToast :: "nat \<Rightarrow> page_state \<Rightarrow> page_state" where
  "dismissToast i s = s\<lparr>toasts := filter (\<lambda>t. toast_id t \<noteq> i) (toasts s)\<rparr>"

definition request :: "api_call \<Rightarrow> page_state \<Rightarrow> page_state" where
  "request c s = s\<lparr>trace := trace s @ [Request c]\<rparr>"

subsection \<open>Pagination\<close>

text \<open>\<open>Math.max(1, Math.ceil(listTotal / PAGE_SIZE))\<close>: the division is that of the reals.\<close>

definition totalPages :: "int \<Rightarrow> int" where
  "totalPages tot = max 1 \<lceil>real_of_int tot / real_of_int PAGE_SIZE\<rceil>"

definition previous_disabled :: "page_state \<Rightarrow> bool" where
  "previous_disabled s = (page s = 0)"

definition next_disabled :: "page_state \<Rightarrow> bool" where
  "next_disabled s = (page s \<ge> totalPages (listTotal s) - 1)"

definition previous_onClick :: "page_state \<Rightarrow> page_state" where
  "previous_onClick s = s\<lparr>page := max 0 (page s - 1)\<rparr>"

definition next_onClick :: "page_state \<Rightarrow> page_state" where
  "next_onClick s = s\<lparr>page := min (totalPages (listTotal s) - 1) (page s + 1)\<rparr>"

subsection \<open>Filters and the debounced search\<close>

definition type_onChange :: "feedback_type filter_value \<Rightarrow> page_state \<Rightarrow> page_state" where
  "type_onChange v s = s\<lparr>typeFilter := v, page := 0\<rparr>"

definition status_onChange :: "feedback_status filter_value \<Rightarrow> page_state \<Rightarrow> page_state" where
  "status_onChange v s = s\<lparr>statusFilter := v, page := 0\<rparr>"

definition priority_onChange ::
  "feedback_priority filter_value \<Rightarrow> page_state \<Rightarrow> page_state" where
  "priority_onChange v s = s\<lparr>priorityFilter := v, page := 0\<rparr>"

definition sort_onChange :: "sort_mode \<Rightarrow> page_state \<Rightarrow> page_state" where
  "sort_onChange v s = s\<lparr>sortBy := v\<rparr>"

text \<open>The hint of a quick entry point: each of its three fields is optional.\<close>

definition hintAction_onClick ::
  "feedback_type option \<Rightarrow> feedback_status option \<Rightarrow> sort_mode option \<Rightarrow>
   page_state \<Rightarrow> page_state" where
  "hintAction_onClick t st so s =
     (let s1 = (case t of Some v \<Rightarrow> s\<lparr>typeFilter := only v\<rparr> | None \<Rightarrow> s);
          s2 = (case st of Some v \<Rightarrow> s1\<lparr>statusFilter := only v\<rparr> | None \<Rightarrow> s1);
          s3 = (case so of Some v \<Rightarrow> s2\<lparr>sortBy := v\<rparr> | None \<Rightarrow> s2)
      in s3\<lparr>page := 0\<rparr>)"

text \<open>
  \<open>setSearchInput\<close> followed by the search effect, whose dependency is \<open>searchInput\<close>: when
  the text has changed, the cleanup clears the pending timeout and the effect sets a new
  one; when it has not, nothing is rendered and the pending timeout stays.
\<close>

definition setSearchInput :: "string \<Rightarrow> page_state \<Rightarrow> page_state" where
  "setSearchInput v s =
     (if v = searchInput s then s else s\<lparr>searchInput := v, debounce := Some DEBOUNCE_MS\<rparr>)"

text \<open>The body of the timeout.\<close>

definition debounce_fire :: "page_state \<Rightarrow> page_state" where
  "debounce_fire s = s\<lparr>searchValue := trim (searchInput s), page := 0, debounce := None\<rparr>"

text \<open>\<open>d\<close> milliseconds pass with no event: the timeout fires once its delay is over.\<close>

definition elapse :: "nat \<Rightarrow> page_state \<Rightarrow> page_state" where
  "elapse d s =
     (case debounce s of
        None \<Rightarrow> s
      | Some r \<Rightarrow> if d < r then s\<lparr>debounce := Some (r - d)\<rparr> else debounce_fire s)"

text \<open>
  Typing: each keystroke is a pause followed by a change of the input to a new text.
\<close>

fun typing :: "(nat \<times> string) list \<Rightarrow> page_state \<Rightarrow> page_state" where
  "typing [] s = s"
| "typing ((gap, v) # ks) s = typing ks (setSearchInput v (elapse gap s))"

text \<open>
  \<open>changing prev vs\<close>: every text of \<open>vs\<close> differs from the one before it, \<open>prev\<close>
  being the text before the first. A change event carries a value other than the one the
  input holds.
\<close>

fun changing :: "string \<Rightarrow> string list \<Rightarrow> bool" where
  "changing prev [] = True"
| "changing prev (v # vs) = (v \<noteq> prev \<and> changing v vs)"

definition clearAllFilters :: "page_state \<Rightarrow> page_state" where
  "clearAllFilters s =
     (setSearchInput []
        (s\<lparr>typeFilter := filter_all, statusFilter := filter_all,
           priorityFilter := filter_all, sortBy := recent\<rparr>))
     \<lparr>searchValue := [], page := 0\<rparr>"

subsection \<open>Fetching the list\<close>

definition list_query_of :: "page_state \<Rightarrow> list_query" where
  "list_query_of s =
     \<lparr>q_type = typeFilter s, q_status = statusFilter s, q_priority = priorityFilter s,
      q_sortBy = sortBy s, q_search = searchValue s, q_limit = PAGE_SIZE,
      q_offset = page s * PAGE_SIZE\<rparr>"

text \<open>
  \<open>fetchList\<close> up to its \<open>await\<close>, and from the answer on; it never rejects. It is a
  callback closed over the filters, the search value and the page of the render that
  created it: \<open>q\<close> is the query of that render, whatever the state is when it is called.
\<close>

definition fetchList_start :: "list_query \<Rightarrow> page_state \<Rightarrow> page_state" where
  "fetchList_start q s = request (ListFeedback q) (s\<lparr>isLoading := True\<rparr>)"

definition fetchList_settled ::
  "string + feedback_item list \<times> int \<Rightarrow> page_state \<Rightarrow> page_state" where
  "fetchList_settled out s =
     (case out of
        Inr (its, tot) \<Rightarrow> s\<lparr>items := its, listTotal := tot\<rparr>
      | Inl err \<Rightarrow> pushToast err error s)
     \<lparr>isLoading := False\<rparr>"

definition fetchSummary_start :: "page_state \<Rightarrow> page_state" where
  "fetchSummary_start s = request GetFeedbackSummary s"

subsection \<open>Upvotes\<close>

text \<open>The optimistic patch of one item.\<close>

definition toggle_upvote :: "feedback_item \<Rightarrow> feedback_item" where
  "toggle_upvote item =
     (let toggled = \<not> user_has_upvoted item in
      item\<lparr>user_has_upvoted := toggled,
           upvotes := (if toggled then upvotes item + 1 else max 0 (upvotes item - 1))\<rparr>)"

text \<open>
  \<open>handleUpvote\<close> up to its \<open>await\<close>: everything that happens before the answer of the
  server exists.
\<close>

definition handleUpvote_start :: "auth_user option \<Rightarrow> string \<Rightarrow> page_state \<Rightarrow> page_state" where
  "handleUpvote_start usr feedbackId s =
     (case usr of
        None \<Rightarrow> pushToast ''Sign in to upvote feedback.'' error s
      | Some u \<Rightarrow>
          request (ToggleFeedbackUpvote feedbackId)
            (s\<lparr>items := map (\<lambda>item. if item_id item \<noteq> feedbackId then item
                                     else toggle_upvote item) (items s),
               upvoteLoadingId := Some feedbackId\<rparr>))"

text \<open>
  The rest of \<open>handleUpvote\<close>, once the request has been answered or has failed. The
  \<open>fetchList\<close> it calls is the one of the render in which the button was clicked: \<open>q\<close> is
  the query of the state at the click, also when a filter has changed since.
\<close>

definition handleUpvote_settled ::
  "list_query \<Rightarrow> string + unit \<Rightarrow> page_state \<Rightarrow> page_state" where
  "handleUpvote_settled q out s =
     (case out of
        Inr ok \<Rightarrow> fetchSummary_start (fetchList_start q s)
      | Inl err \<Rightarrow> fetchList_start q (pushToast err error s))
     \<lparr>upvoteLoadingId := None\<rparr>"

subsection \<open>Comments\<close>

definition setCommentsById :: "string \<Rightarrow> feedback_comment list \<Rightarrow> page_state \<Rightarrow> page_state" where
  "setCommentsById feedbackId its s =
     s\<lparr>commentsById := (commentsById s)(feedbackId \<mapsto> its),
       trace := trace s @ [CommentsWritten feedbackId its]\<rparr>"

definition setCommentDrafts :: "string \<Rightarrow> string \<Rightarrow> page_state \<Rightarrow> page_state" where
  "setCommentDrafts feedbackId v s =
     s\<lparr>commentDrafts := (commentDrafts s)(feedbackId \<mapsto> v),
       trace := trace s @ [DraftWritten feedbackId v]\<rparr>"

definition toggleComments_start :: "string \<Rightarrow> page_state \<Rightarrow> page_state" where
  "toggleComments_start feedbackId s =
     (if expandedId s = Some feedbackId then s\<lparr>expandedId := None\<rparr>
      else let s1 = s\<lparr>expandedId := Some feedbackId\<rparr> in
           if commentsById s feedbackId = None
           then request (GetFeedbackComments feedbackId) s1 else s1)"

definition toggleComments_settled ::
  "string \<Rightarrow> string + feedback_comment list \<Rightarrow> page_state \<Rightarrow> page_state" where
  "toggleComments_settled feedbackId out s =
     (case out of
        Inr its \<Rightarrow> setCommentsById feedbackId its s
      | Inl err \<Rightarrow> pushToast err error s)"

text \<open>\<open>(commentDrafts[feedbackId] || "").trim()\<close> and \<open>user?.name || undefined\<close>.\<close>

definition comment_of :: "string \<Rightarrow> page_state \<Rightarrow> string" where
  "comment_of feedbackId s =
     trim (case commentDrafts s feedbackId of Some d \<Rightarrow> d | None \<Rightarrow> [])"

definition submitter_name :: "auth_user option \<Rightarrow> string option" where
  "submitter_name usr =
     (case usr of
        None \<Rightarrow> None
      | Some u \<Rightarrow> if user_name u = [] then None else Some (user_name u))"

text \<open>
  \<open>handleSubmitComment\<close>, cut at its three \<open>await\<close>s. The first part runs to the request
  that posts the comment.
\<close>

definition handleSubmitComment_start ::
  "auth_user option \<Rightarrow> string \<Rightarrow> page_state \<Rightarrow> page_state" where
  "handleSubmitComment_start usr feedbackId s =
     (let comment = comment_of feedbackId s in
      if comment = [] then s
      else request (AddFeedbackComment feedbackId comment (submitter_name usr))
             (s\<lparr>commentLoadingId := Some feedbackId\<rparr>))"

text \<open>The \<open>catch\<close> and \<open>finally\<close> blocks, when one of the two requests fails.\<close>

definition handleSubmitComment_failed :: "string \<Rightarrow> page_state \<Rightarrow> page_state" where
  "handleSubmitComment_failed err s = (pushToast err error s)\<lparr>commentLoadingId := None\<rparr>"

text \<open>The comment is posted: the comments of the item are requested.\<close>

definition handleSubmitComment_posted :: "string \<Rightarrow> page_state \<Rightarrow> page_state" where
  "handleSubmitComment_posted feedbackId s = request (GetFeedbackComments feedbackId) s"

text \<open>
  The comments are there: the cache, the draft, then the call of \<open>fetchList\<close>, which is
  the one of the render in which the comment was submitted, with its query \<open>q\<close>.
\<close>

definition handleSubmitComment_fetched ::
  "list_query \<Rightarrow> string \<Rightarrow> feedback_comment list \<Rightarrow> page_state \<Rightarrow> page_state" where
  "handleSubmitComment_fetched q feedbackId its s =
     fetchList_start q (setCommentDrafts feedbackId [] (setCommentsById feedbackId its s))"

text \<open>\<open>fetchList\<close> has returned: the toast, then the \<open>finally\<close> block.\<close>

definition handleSubmitComment_listed :: "page_state \<Rightarrow> page_state" where
  "handleSubmitComment_listed s =
     (pushToast ''Comment posted'' success s)\<lparr>commentLoadingId := None\<rparr>"

text \<open>
  One call of \<open>handleSubmitComment\<close> run to its end with no other event in between, given
  the outcome of each of its three requests.
\<close>

definition handleSubmitComment ::
  "auth_user option \<Rightarrow> string \<Rightarrow> string + unit \<Rightarrow> string + feedback_comment list \<Rightarrow>
   string + feedback_item list \<times> int \<Rightarrow> page_state \<Rightarrow> page_state" where
  "handleSubmitComment usr feedbackId post_out get_out list_out s =
     (if comment_of feedbackId s = [] then s
      else let s1 = handleSubmitComment_start usr feedbackId s in
        case post_out of
          Inl err \<Rightarrow> handleSubmitComment_failed err s1
        | Inr ok \<Rightarrow>
            (let s2 = handleSubmitComment_posted feedbackId s1 in
             case get_out of
               Inl err \<Rightarrow> handleSubmitComment_failed err s2
             | Inr its \<Rightarrow>
                 handleSubmitComment_listed
                   (fetchList_settled list_out
                      (handleSubmitComment_fetched (list_query_of s) feedbackId its s2))))"

text \<open>
  \<open>precedes a b es\<close>: \<open>a\<close> occurs in \<open>es\<close>, and \<open>b\<close> occurs after the first \<open>a\<close>.
\<close>

definition precedes :: "effect \<Rightarrow> effect \<Rightarrow> effect list \<Rightarrow> bool" where
  "precedes a b es = (b \<in> set (drop 1 (dropWhile (\<lambda>e. e \<noteq> a) es)))"

section \<open>Submission form (SubmitFeedbackModal)\<close>

definition TITLE_MAX :: nat where
  "TITLE_MAX = 255"

definition DESC_MAX :: nat where
  "DESC_MAX = 5000"

record submit_form =
  formType :: feedback_type
  title :: string
  description :: string
  modelName :: string
  modelProvider :: string
  name :: string
  email :: string
  meta :: "string \<rightharpoonup> string"
  referenceUrl :: string
  environment :: string
  fileAttachments :: "attachment_meta list"

definition initial_form :: "feedback_type \<Rightarrow> string \<Rightarrow> string \<Rightarrow> string \<Rightarrow> submit_form" where
  "initial_form t userName userEmail env =
     \<lparr>formType = t, title = [], description = [], modelName = [], modelProvider = [],
      name = userName, email = userEmail, meta = Map.empty, referenceUrl = [],
      environment = env, fileAttachments = []\<rparr>"

definition updateMeta :: "string \<Rightarrow> string \<Rightarrow> submit_form \<Rightarrow> submit_form" where
  "updateMeta k v f = f\<lparr>meta := (meta f)(k \<mapsto> v)\<rparr>"

definition title_onChange :: "string \<Rightarrow> submit_form \<Rightarrow> submit_form" where
  "title_onChange v f = f\<lparr>title := take TITLE_MAX v\<rparr>"

definition description_onChange :: "string \<Rightarrow> submit_form \<Rightarrow> submit_form" where
  "description_onChange v f = f\<lparr>description := take DESC_MAX v\<rparr>"

definition modelInfoRequired :: "submit_form \<Rightarrow> bool" where
  "modelInfoRequired f =
     (formType f = model_request \<and> length (trim (modelName f)) = 0 \<and>
      length (trim (modelProvider f)) = 0)"

definition canSubmit :: "bool \<Rightarrow> submit_form \<Rightarrow> bool" where
  "canSubmit isSubmitting f =
     (\<not> isSubmitting \<and> length (trim (title f)) \<ge> 3 \<and>
      length (trim (description f)) \<ge> 10 \<and> \<not> modelInfoRequired f)"

text \<open>The effect whose dependency is \<open>formType\<close>.\<close>

definition reset_per_type_fields :: "submit_form \<Rightarrow> submit_form" where
  "reset_per_type_fields f = f\<lparr>meta := Map.empty, referenceUrl := [], fileAttachments := []\<rparr>"

text \<open>
  \<open>setFormType\<close> followed by that effect: it runs when the type has changed, and nothing is
  rendered when it has not.
\<close>

definition setFormType :: "feedback_type \<Rightarrow> submit_form \<Rightarrow> submit_form" where
  "setFormType t f = (if t = formType f then f else reset_per_type_fields (f\<lparr>formType := t\<rparr>))"

section \<open>Properties of the uploader\<close>

subsection \<open>Extensions\<close>

lemma of_char_lowerChar:
  "(of_char (lowerChar c) :: nat) =
     (let n = (of_char c :: nat) in
      if (65 \<le> n \<and> n \<le> 90) \<or> (192 \<le> n \<and> n \<le> 222 \<and> n \<noteq> 215) then n + 32 else n)"
  by (auto simp: lowerChar_def Let_def)

lemma lowerChar_dot_iff: "lowerChar c = CHR ''.'' \<longleftrightarrow> c = CHR ''.''"
proof
  assume "lowerChar c = CHR ''.''"
  then have "(of_char (lowerChar c) :: nat) = 46" by simp
  then have "(of_char c :: nat) = 46"
    by (auto simp: of_char_lowerChar Let_def split: if_splits)
  then have "(of_char c :: nat) = of_char (CHR ''.'')" by simp
  then show "c = CHR ''.''" by (simp only: of_char_eq_iff)
next
  assume "c = CHR ''.''"
  then show "lowerChar c = CHR ''.''" by (simp add: lowerChar_def)
qed

lemma lowerChar_idem: "lowerChar (lowerChar c) = lowerChar c"
proof -
  have "(of_char (lowerChar (lowerChar c)) :: nat) = of_char (lowerChar c)"
    by (auto simp: of_char_lowerChar Let_def)
  then show ?thesis by (simp only: of_char_eq_iff)
qed

lemma toLowerCase_idem: "toLowerCase (toLowerCase s) = toLowerCase s"
  by (simp add: toLowerCase_def lowerChar_idem)

lemma lastIndexOf_ge: "lastIndexOf s c \<ge> -1"
  by (induction s) (auto simp: Let_def)

lemma lastIndexOf_absent: "lastIndexOf s c < 0 \<longleftrightarrow> c \<notin> set s"
proof (induction s)
  case Nil
  then show ?case by simp
next
  case (Cons x xs)
  then show ?case using lastIndexOf_ge [of xs c] by (auto simp: Let_def)
qed

lemma lastIndexOf_toLowerCase:
  "lastIndexOf (toLowerCase s) (CHR ''.'') = lastIndexOf s (CHR ''.'')"
  by (induction s) (auto simp: toLowerCase_def Let_def lowerChar_dot_iff)

lemma lastIndexOf_split:
  "c \<in> set s \<Longrightarrow>
     \<exists>pre suf. s = pre @ c # suf \<and> c \<notin> set suf \<and> lastIndexOf s c = int (length pre)"
proof (induction s)
  case Nil
  then show ?case by simp
next
  case (Cons x xs)
  show ?case
  proof (cases "c \<in> set xs")
    case True
    then obtain pre suf where h: "xs = pre @ c # suf" "c \<notin> set suf"
      "lastIndexOf xs c = int (length pre)"
      using Cons.IH by blast
    then have "x # xs = (x # pre) @ c # suf \<and> c \<notin> set suf \<and>
                 lastIndexOf (x # xs) c = int (length (x # pre))"
      by (simp add: Let_def)
    then show ?thesis by blast
  next
    case False
    then have "lastIndexOf xs c < 0" by (simp add: lastIndexOf_absent)
    moreover have "x = c" using Cons.prems False by simp
    ultimately have "x # xs = [] @ c # xs \<and> c \<notin> set xs \<and>
                 lastIndexOf (x # xs) c = int (length ([]::string))"
      using False by (simp add: Let_def)
    then show ?thesis by blast
  qed
qed

lemma getExtension_toLowerCase: "getExtension (toLowerCase s) = getExtension s"
  by (simp add: getExtension_def lastIndexOf_toLowerCase Let_def slice_from_def
      toLowerCase_idem)
    (simp add: toLowerCase_def drop_map lowerChar_idem)

lemma empty_not_allowed: "[] \<notin> set ALLOWED_EXTENSIONS"
  by (simp add: ALLOWED_EXTENSIONS_def)

text \<open>
  Claim C10. The extension check of the uploader does not depend on the case of the file
  name: \<open>getExtension\<close> returns the part of the name from its last dot on, in lower
  case, and \<open>validate_file\<close> rejects a file for its type exactly when that extension is
  not in the allow-list. So two names that differ only in case have the same extension
  and, at the same size, are accepted or rejected together; a file named \<open>photo.PNG\<close>
  of at most 10 MiB is accepted; a name with no dot has the empty extension, which the
  allow-list does not contain, so the file is rejected whatever its size.
\<close>

theorem getExtension_case_insensitive:
  "getExtension ''photo.PNG'' = ''.png'' \<and>
   getExtension ''photo.PNG'' \<in> set ALLOWED_EXTENSIONS \<and>
   (toLowerCase n = toLowerCase n' \<longrightarrow> getExtension n = getExtension n') \<and>
   (CHR ''.'' \<in> set n \<longrightarrow>
      (\<exists>pre suf. n = pre @ CHR ''.'' # suf \<and> CHR ''.'' \<notin> set suf \<and>
                 getExtension n = toLowerCase (CHR ''.'' # suf))) \<and>
   (CHR ''.'' \<notin> set n \<longrightarrow>
      getExtension n = [] \<and>
      validate_file \<lparr>file_ref = r, file_name = n, file_size = sz\<rparr> = Some (TypeNotAllowed [])) \<and>
   (validate_file f = Some (TypeNotAllowed (getExtension (file_name f))) \<longleftrightarrow>
      getExtension (file_name f) \<notin> set ALLOWED_EXTENSIONS) \<and>
   (validate_file f = None \<longleftrightarrow>
      getExtension (file_name f) \<in> set ALLOWED_EXTENSIONS \<and> file_size f \<le> MAX_FILE_SIZE) \<and>
   (sz \<le> MAX_FILE_SIZE \<longrightarrow>
      validate_file \<lparr>file_ref = r, file_name = ''photo.PNG'', file_size = sz\<rparr> = None) \<and>
   (toLowerCase n = toLowerCase n' \<longrightarrow>
      (validate_file \<lparr>file_ref = r, file_name = n, file_size = sz\<rparr> = None) =
      (validate_file \<lparr>file_ref = r', file_name = n', file_size = sz\<rparr> = None))"
proof -
  have a: "getExtension ''photo.PNG'' = ''.png''" by code_simp
  have b: "''.png'' \<in> set ALLOWED_EXTENSIONS"
    by (simp add: ALLOWED_EXTENSIONS_def)
  have c: "toLowerCase n = toLowerCase n' \<longrightarrow> getExtension n = getExtension n'"
    by (metis getExtension_toLowerCase)
  have d: "CHR ''.'' \<in> set n \<longrightarrow>
      (\<exists>pre suf. n = pre @ CHR ''.'' # suf \<and> CHR ''.'' \<notin> set suf \<and>
                 getExtension n = toLowerCase (CHR ''.'' # suf))"
  proof
    assume "CHR ''.'' \<in> set n"
    then obtain pre suf where h: "n = pre @ CHR ''.'' # suf" "CHR ''.'' \<notin> set suf"
      "lastIndexOf n (CHR ''.'') = int (length pre)"
      using lastIndexOf_split by blast
    have "getExtension n = toLowerCase (drop (length pre) n)"
      by (simp add: getExtension_def h(3) slice_from_def)
    then have "getExtension n = toLowerCase (CHR ''.'' # suf)"
      by (simp add: h(1))
    with h show "\<exists>pre suf. n = pre @ CHR ''.'' # suf \<and> CHR ''.'' \<notin> set suf \<and>
                 getExtension n = toLowerCase (CHR ''.'' # suf)" by blast
  qed
  have e: "CHR ''.'' \<notin> set n \<longrightarrow>
      getExtension n = [] \<and>
      validate_file \<lparr>file_ref = r, file_name = n, file_size = sz\<rparr> = Some (TypeNotAllowed [])"
  proof
    assume "CHR ''.'' \<notin> set n"
    then have "lastIndexOf n (CHR ''.'') < 0" by (simp add: lastIndexOf_absent)
    then have g: "getExtension n = []" by (simp add: getExtension_def)
    then show "getExtension n = [] \<and>
      validate_file \<lparr>file_ref = r, file_name = n, file_size = sz\<rparr> = Some (TypeNotAllowed [])"
      by (simp add: validate_file_def empty_not_allowed)
  qed
  have f1: "validate_file f = Some (TypeNotAllowed (getExtension (file_name f))) \<longleftrightarrow>
      getExtension (file_name f) \<notin> set ALLOWED_EXTENSIONS"
    by (auto simp: validate_file_def Let_def)
  have f2: "validate_file g = None \<longleftrightarrow>
      getExtension (file_name g) \<in> set ALLOWED_EXTENSIONS \<and> file_size g \<le> MAX_FILE_SIZE"
    for g
    by (auto simp: validate_file_def Let_def)
  have p: "sz \<le> MAX_FILE_SIZE \<longrightarrow>
      validate_file \<lparr>file_ref = r, file_name = ''photo.PNG'', file_size = sz\<rparr> = None"
    using a b by (simp add: f2)
  have i: "toLowerCase n = toLowerCase n' \<longrightarrow>
      (validate_file \<lparr>file_ref = r, file_name = n, file_size = sz\<rparr> = None) =
      (validate_file \<lparr>file_ref = r', file_name = n', file_size = sz\<rparr> = None)"
    using c by (simp add: f2)
  from a b c d e f1 f2 [of f] p i show ?thesis by simp
qed

theorem getExtension_case_insensitive_witness:
  "getExtension ''Report.Final.PdF'' = getExtension ''report.final.pdf'' \<and>
   getExtension ''Report.Final.PdF'' = ''.pdf'' \<and>
   validate_file \<lparr>file_ref = 0, file_name = ''README'', file_size = 10\<rparr>
     = Some (TypeNotAllowed []) \<and>
   validate_file \<lparr>file_ref = 0, file_name = ''photo.PNG'', file_size = 2048\<rparr> = None \<and>
   validate_file \<lparr>file_ref = 0, file_name = ''PHOTO.Png'', file_size = 2048\<rparr> = None \<and>
   validate_file \<lparr>file_ref = 0, file_name = ''photo.exe'', file_size = 2048\<rparr>
     = Some (TypeNotAllowed ''.exe'')"
proof -
  have l: "toLowerCase ''Report.Final.PdF'' = toLowerCase ''report.final.pdf''" by code_simp
  have l2: "toLowerCase ''photo.PNG'' = toLowerCase ''PHOTO.Png''" by code_simp
  have x: "getExtension ''report.final.pdf'' = ''.pdf''" by code_simp
  have y: "getExtension ''photo.exe'' = ''.exe''" by code_simp
  have ny: "''.exe'' \<notin> set ALLOWED_EXTENSIONS" by (simp add: ALLOWED_EXTENSIONS_def)
  have nd: "CHR ''.'' \<notin> set ''README''" by simp
  have sz: "(2048::nat) \<le> MAX_FILE_SIZE" by (simp add: MAX_FILE_SIZE_def)
  note t1 = getExtension_case_insensitive
      [where n = "''Report.Final.PdF''" and n' = "''report.final.pdf''" and r = 0
         and r' = 0 and sz = 10
         and f = "\<lparr>file_ref = 0, file_name = ''photo.exe'', file_size = 2048\<rparr>"]
  note t2 = getExtension_case_insensitive
      [where n = "''README''" and n' = "''README''" and r = 0 and r' = 0 and sz = 10
         and f = "\<lparr>file_ref = 0, file_name = ''photo.exe'', file_size = 2048\<rparr>"]
  note t3 = getExtension_case_insensitive
      [where n = "''photo.PNG''" and n' = "''PHOTO.Png''" and r = 0 and r' = 0 and sz = 2048
         and f = "\<lparr>file_ref = 0, file_name = ''photo.exe'', file_size = 2048\<rparr>"]
  have w1: "getExtension ''Report.Final.PdF'' = getExtension ''report.final.pdf''"
    using t1 l by blast
  have w2: "validate_file \<lparr>file_ref = 0, file_name = ''README'', file_size = 10\<rparr>
              = Some (TypeNotAllowed [])"
    using t2 nd by blast
  have w3: "validate_file \<lparr>file_ref = 0, file_name = ''photo.PNG'', file_size = 2048\<rparr> = None"
    using t3 sz by blast
  have w4: "validate_file \<lparr>file_ref = 0, file_name = ''PHOTO.Png'', file_size = 2048\<rparr> = None"
    using t3 l2 w3 by blast
  have w5: "validate_file \<lparr>file_ref = 0, file_name = ''photo.exe'', file_size = 2048\<rparr>
              = Some (TypeNotAllowed ''.exe'')"
    using t1 y ny by simp
  from w1 w2 w3 w4 w5 x show ?thesis by simp
qed

subsection \<open>Validation\<close>

lemma validate_batch_None_iff:
  "validate_batch b = None \<longleftrightarrow> (\<forall>f\<in>set b. validate_file f = None)"
  by (induction b) (auto split: option.splits)

lemma validate_batch_first_invalid:
  "\<forall>g\<in>set pre. validate_file g = None \<Longrightarrow>
     validate_batch (pre @ f # post) =
       (case validate_file f of Some e \<Rightarrow> Some e | None \<Rightarrow> validate_batch post)"
  by (induction pre) auto

lemma validate_file_None_iff:
  "validate_file f = None \<longleftrightarrow>
     getExtension (file_name f) \<in> set ALLOWED_EXTENSIONS \<and> file_size f \<le> 10 * 1024 * 1024"
  by (auto simp: validate_file_def Let_def MAX_FILE_SIZE_def)

lemma uploadFiles_start_full:
  "length (attachments u) \<ge> MAX_FILES \<Longrightarrow>
     uploadFiles_start files u = (u\<lparr>upload_error := Some MaxFilesReached\<rparr>, None)"
  by (simp add: uploadFiles_start_def Let_def)

lemma uploadFiles_start_valid:
  assumes "length (attachments u) < MAX_FILES"
    and "\<forall>f\<in>set (take (MAX_FILES - length (attachments u)) files). validate_file f = None"
  shows "uploadFiles_start files u =
           (u\<lparr>upload_error := None,
              pending := pending u @ map new_pending (take (MAX_FILES - length (attachments u)) files),
              requests := requests u @ take (MAX_FILES - length (attachments u)) files\<rparr>,
            Some \<lparr>captured = attachments u,
                  batch = take (MAX_FILES - length (attachments u)) files,
                  results = replicate (length (take (MAX_FILES - length (attachments u)) files)) None\<rparr>)"
proof -
  have n: "nat (int MAX_FILES - int (length (attachments u))) = MAX_FILES - length (attachments u)"
    by simp
  have v: "validate_batch (take (MAX_FILES - length (attachments u)) files) = None"
    using assms(2) by (simp only: validate_batch_None_iff)
  show ?thesis
    using assms(1) by (simp add: uploadFiles_start_def Let_def n v del: length_take)
qed

lemma uploadFiles_start_invalid:
  assumes "length (attachments u) < MAX_FILES"
    and "take (MAX_FILES - length (attachments u)) files = pre @ f # post"
    and "\<forall>g\<in>set pre. validate_file g = None"
    and "validate_file f \<noteq> None"
  shows "uploadFiles_start files u = (u\<lparr>upload_error := validate_file f\<rparr>, None)"
proof -
  have n: "nat (int MAX_FILES - int (length (attachments u))) = MAX_FILES - length (attachments u)"
    by simp
  obtain e where e: "validate_file f = Some e" using assms(4) by blast
  have v: "validate_batch (take (MAX_FILES - length (attachments u)) files) = Some e"
    using assms(3) by (simp add: assms(2) validate_batch_first_invalid e)
  show ?thesis
    using assms(1) by (simp add: uploadFiles_start_def Let_def n v e)
qed

lemma uploadFiles_start_no_run:
  "snd (uploadFiles_start files u) = None \<Longrightarrow>
     requests (fst (uploadFiles_start files u)) = requests u"
  by (auto simp: uploadFiles_start_def Let_def split: if_splits option.splits)

text \<open>
  Claim C5. When the caller already holds \<open>MAX_FILES\<close> (3) attachments, \<open>uploadFiles\<close>
  sets an error and issues no upload. Otherwise the batch is cut to the free slots and
  checked file by file before anything is uploaded: when every file of the cut batch has
  an allowed extension and at most 10 MiB, exactly these files are uploaded; when some
  file fails, the error is that of the first such file and no upload is issued.
\<close>

theorem uploadFiles_validates_before_uploading:
  "(length (attachments u) \<ge> MAX_FILES \<longrightarrow>
      uploadFiles_start files u = (u\<lparr>upload_error := Some MaxFilesReached\<rparr>, None)) \<and>
   (length (attachments u) < MAX_FILES \<longrightarrow>
      (let b = take (MAX_FILES - length (attachments u)) files in
         ((\<forall>f\<in>set b. validate_file f = None) \<longrightarrow>
            uploadFiles_start files u =
              (u\<lparr>upload_error := None, pending := pending u @ map new_pending b,
                 requests := requests u @ b\<rparr>,
               Some \<lparr>captured = attachments u, batch = b,
                     results = replicate (length b) None\<rparr>)) \<and>
         (\<forall>pre f post.
            b = pre @ f # post \<and> (\<forall>g\<in>set pre. validate_file g = None) \<and>
            validate_file f \<noteq> None \<longrightarrow>
            uploadFiles_start files u = (u\<lparr>upload_error := validate_file f\<rparr>, None)))) \<and>
   (snd (uploadFiles_start files u) = None \<longrightarrow>
      requests (fst (uploadFiles_start files u)) = requests u) \<and>
   (validate_file g = None \<longleftrightarrow>
      getExtension (file_name g) \<in> set ALLOWED_EXTENSIONS \<and>
      file_size g \<le> 10 * 1024 * 1024) \<and>
   MAX_FILES = 3"
  using uploadFiles_start_full [of u files] uploadFiles_start_valid [of u files]
    uploadFiles_start_invalid [of u files] uploadFiles_start_no_run [of files u]
    validate_file_None_iff [of g]
  by (simp add: Let_def MAX_FILES_def del: length_take) blast

theorem uploadFiles_validates_before_uploading_witness:
  "uploadFiles_start
     [\<lparr>file_ref = 10, file_name = ''a.png'', file_size = 100\<rparr>,
      \<lparr>file_ref = 11, file_name = ''b.exe'', file_size = 100\<rparr>,
      \<lparr>file_ref = 12, file_name = ''c.txt'', file_size = 100\<rparr>]
     \<lparr>attachments = [\<lparr>att_id = ''1'', att_name = ''x.pdf'', stored_name = ''s1'',
                       att_type = ''application/pdf'', att_size = 7, storage = ''local'',
                       path = ''/u/s1''\<rparr>],
      pending = [], upload_error = None, requests = []\<rparr>
   = (\<lparr>attachments = [\<lparr>att_id = ''1'', att_name = ''x.pdf'', stored_name = ''s1'',
                       att_type = ''application/pdf'', att_size = 7, storage = ''local'',
                       path = ''/u/s1''\<rparr>],
      pending = [], upload_error = Some (TypeNotAllowed ''.exe''), requests = []\<rparr>, None)"
proof -
  let ?fa = "\<lparr>file_ref = 10, file_name = ''a.png'', file_size = 100\<rparr>"
  let ?fb = "\<lparr>file_ref = 11, file_name = ''b.exe'', file_size = 100\<rparr>"
  let ?fc = "\<lparr>file_ref = 12, file_name = ''c.txt'', file_size = 100\<rparr>"
  let ?u = "\<lparr>attachments = [\<lparr>att_id = ''1'', att_name = ''x.pdf'', stored_name = ''s1'',
                       att_type = ''application/pdf'', att_size = 7, storage = ''local'',
                       path = ''/u/s1''\<rparr>],
      pending = [], upload_error = None, requests = []\<rparr>"
  have ea: "getExtension ''a.png'' = ''.png''" by code_simp
  have eb: "getExtension ''b.exe'' = ''.exe''" by code_simp
  have va: "validate_file ?fa = None"
    by (simp add: validate_file_def ea ALLOWED_EXTENSIONS_def MAX_FILE_SIZE_def)
  have vb: "validate_file ?fb = Some (TypeNotAllowed ''.exe'')"
    by (simp add: validate_file_def eb ALLOWED_EXTENSIONS_def)
  have l: "length (attachments ?u) < MAX_FILES" by (simp add: MAX_FILES_def)
  have prem: "take (MAX_FILES - length (attachments ?u)) [?fa, ?fb, ?fc] = [?fa] @ ?fb # [] \<and>
          (\<forall>g\<in>set [?fa]. validate_file g = None) \<and> validate_file ?fb \<noteq> None"
    using va vb by (simp add: MAX_FILES_def)
  from uploadFiles_validates_before_uploading [of ?u "[?fa, ?fb, ?fc]" ?fa] l
  have "\<forall>pre f post.
          take (MAX_FILES - length (attachments ?u)) [?fa, ?fb, ?fc] = pre @ f # post \<and>
          (\<forall>g\<in>set pre. validate_file g = None) \<and> validate_file f \<noteq> None \<longrightarrow>
          uploadFiles_start [?fa, ?fb, ?fc] ?u = (?u\<lparr>upload_error := validate_file f\<rparr>, None)"
    by (simp only: Let_def) blast
  from this [rule_format, OF prem]
  show ?thesis by (simp add: vb)
qed

subsection \<open>Settlement\<close>

lemma upload_settled_attachments:
  "attachments (fst (upload_settled i out ur)) = attachments (fst ur)"
  by (simp add: upload_settled_def Let_def)

lemma upload_settled_requests:
  "requests (fst (upload_settled i out ur)) = requests (fst ur)"
  by (simp add: upload_settled_def Let_def)

lemma upload_settled_run:
  "snd (upload_settled i out ur) =
     (if i < length (batch (snd ur)) \<and> i < length (results (snd ur)) \<and>
         results (snd ur) ! i = None
      then (snd ur)\<lparr>results := (results (snd ur))[i := Some out]\<rparr> else snd ur)"
  by (simp add: upload_settled_def Let_def)

text \<open>
  What the slots hold after the uploads listed in \<open>order\<close> have settled, whatever the
  order: the outcome of every upload listed, and what was there before elsewhere.
\<close>

lemma fold_upload_settled:
  assumes "length (results (snd ur)) = length (batch (snd ur))"
    and "\<forall>j<length (batch (snd ur)). results (snd ur) ! j = None \<or> results (snd ur) ! j = Some (outs ! j)"
  shows "attachments (fst (fold (\<lambda>i. upload_settled i (outs ! i)) order ur)) = attachments (fst ur) \<and>
         requests (fst (fold (\<lambda>i. upload_settled i (outs ! i)) order ur)) = requests (fst ur) \<and>
         captured (snd (fold (\<lambda>i. upload_settled i (outs ! i)) order ur)) = captured (snd ur) \<and>
         batch (snd (fold (\<lambda>i. upload_settled i (outs ! i)) order ur)) = batch (snd ur) \<and>
         length (results (snd (fold (\<lambda>i. upload_settled i (outs ! i)) order ur))) = length (batch (snd ur)) \<and>
         (\<forall>j<length (batch (snd ur)).
            results (snd (fold (\<lambda>i. upload_settled i (outs ! i)) order ur)) ! j =
              (if j \<in> set order then Some (outs ! j) else results (snd ur) ! j))"
  using assms
proof (induction order arbitrary: ur)
  case Nil
  then show ?case by simp
next
  case (Cons i order)
  let ?ur = "upload_settled i (outs ! i) ur"
  have b: "batch (snd ?ur) = batch (snd ur)" and c: "captured (snd ?ur) = captured (snd ur)"
    by (simp_all add: upload_settled_run)
  have len: "length (results (snd ?ur)) = length (batch (snd ?ur))"
    using Cons.prems(1) by (simp add: upload_settled_run)
  have slots: "\<forall>j<length (batch (snd ur)). results (snd ?ur) ! j =
                 (if j = i then Some (outs ! j) else results (snd ur) ! j)"
    using Cons.prems by (auto simp: upload_settled_run nth_list_update)
  have inv: "\<forall>j<length (batch (snd ?ur)). results (snd ?ur) ! j = None \<or>
                 results (snd ?ur) ! j = Some (outs ! j)"
    using slots Cons.prems(2) b by auto
  note IH = Cons.IH [OF len inv]
  show ?case
    using IH slots
    by (simp add: b c upload_settled_attachments upload_settled_requests)
qed

lemma successful_map_Some:
  "successful (map Some outs) =
     concat (map (\<lambda>out. case out of Inr m \<Rightarrow> [m] | Inl msg \<Rightarrow> []) outs)"
  by (induction outs)
    (auto simp: successful_def is_fulfilled_def fulfilled_value_def split: sum.splits)

text \<open>
  Claim C6. For a batch that passes validation, once every upload has settled, the
  attachment list of the caller is the list it had when \<open>uploadFiles\<close> was called
  followed by the metadata of the uploads that succeeded, one entry each, in the order of
  the batch, whatever the order in which the uploads settle; an upload that fails adds
  nothing and takes nothing away.
\<close>

theorem uploadFiles_settles_in_any_order:
  assumes "length (attachments u) < MAX_FILES"
    and "b = take (MAX_FILES - length (attachments u)) files"
    and "\<forall>f\<in>set b. validate_file f = None"
    and "length outs = length b"
    and "set order = {..<length b}"
  shows "\<exists>u'. uploadFiles files outs order u = Some u' \<and>
           attachments u' =
             attachments u @ concat (map (\<lambda>out. case out of Inr m \<Rightarrow> [m] | Inl msg \<Rightarrow> []) outs) \<and>
           requests u' = requests u @ b"
proof -
  let ?u1 = "u\<lparr>upload_error := None, pending := pending u @ map new_pending b,
                 requests := requests u @ b\<rparr>"
  let ?r = "\<lparr>captured = attachments u, batch = b, results = replicate (length b) None\<rparr>"
  let ?ur = "fold (\<lambda>i. upload_settled i (outs ! i)) order (?u1, ?r)"
  have start: "uploadFiles_start files u = (?u1, Some ?r)"
    using uploadFiles_start_valid [of u files] assms(1,2,3) by simp
  have f: "attachments (fst ?ur) = attachments u \<and> requests (fst ?ur) = requests u @ b \<and>
           captured (snd ?ur) = attachments u \<and> length (results (snd ?ur)) = length b \<and>
           (\<forall>j<length b. results (snd ?ur) ! j = (if j \<in> set order then Some (outs ! j) else None))"
    using fold_upload_settled [of "(?u1, ?r)" outs order] by simp
  have res: "results (snd ?ur) = map Some outs"
  proof (rule nth_equalityI)
    show "length (results (snd ?ur)) = length (map Some outs)" using f assms(4) by simp
  next
    fix j assume "j < length (results (snd ?ur))"
    then have "j < length b" using f by simp
    then show "results (snd ?ur) ! j = map Some outs ! j"
      using f assms(4,5) by simp
  qed
  have settled: "all_settled (snd ?ur)"
    by (simp add: all_settled_def res list_all_iff)
  have fin: "attachments (uploadFiles_finish ?ur) = attachments u @ successful (map Some outs) \<and>
             requests (uploadFiles_finish ?ur) = requests u @ b"
    using f by (simp add: uploadFiles_finish_def Let_def res)
  have "uploadFiles files outs order u = Some (uploadFiles_finish ?ur)"
    using settled by (simp add: uploadFiles_def start Let_def)
  then show ?thesis using fin by (simp add: successful_map_Some)
qed

theorem uploadFiles_settles_in_any_order_witness:
  "\<exists>u'. uploadFiles
          [\<lparr>file_ref = 10, file_name = ''a.png'', file_size = 100\<rparr>,
           \<lparr>file_ref = 11, file_name = ''b.LOG'', file_size = 200\<rparr>,
           \<lparr>file_ref = 12, file_name = ''c.txt'', file_size = 300\<rparr>]
          [Inr \<lparr>att_id = ''10'', att_name = ''a.png'', stored_name = ''s10'',
                att_type = ''image/png'', att_size = 100, storage = ''local'', path = ''/u/s10''\<rparr>,
           Inl ''Upload failed'',
           Inr \<lparr>att_id = ''12'', att_name = ''c.txt'', stored_name = ''s12'',
                att_type = ''text/plain'', att_size = 300, storage = ''local'', path = ''/u/s12''\<rparr>]
          [2, 0, 1]
          \<lparr>attachments = [], pending = [], upload_error = None, requests = []\<rparr> = Some u' \<and>
        attachments u' =
          [\<lparr>att_id = ''10'', att_name = ''a.png'', stored_name = ''s10'',
            att_type = ''image/png'', att_size = 100, storage = ''local'', path = ''/u/s10''\<rparr>,
           \<lparr>att_id = ''12'', att_name = ''c.txt'', stored_name = ''s12'',
            att_type = ''text/plain'', att_size = 300, storage = ''local'', path = ''/u/s12''\<rparr>] \<and>
        requests u' =
          [\<lparr>file_ref = 10, file_name = ''a.png'', file_size = 100\<rparr>,
           \<lparr>file_ref = 11, file_name = ''b.LOG'', file_size = 200\<rparr>,
           \<lparr>file_ref = 12, file_name = ''c.txt'', file_size = 300\<rparr>]"
proof -
  let ?fa = "\<lparr>file_ref = 10, file_name = ''a.png'', file_size = 100\<rparr>"
  let ?fb = "\<lparr>file_ref = 11, file_name = ''b.LOG'', file_size = 200\<rparr>"
  let ?fc = "\<lparr>file_ref = 12, file_name = ''c.txt'', file_size = 300\<rparr>"
  let ?u = "\<lparr>attachments = [], pending = [], upload_error = None, requests = []\<rparr>"
  have ea: "getExtension ''a.png'' = ''.png''" by code_simp
  have eb: "getExtension ''b.LOG'' = ''.log''" by code_simp
  have ec: "getExtension ''c.txt'' = ''.txt''" by code_simp
  have v: "\<forall>f\<in>set [?fa, ?fb, ?fc]. validate_file f = None"
    by (simp add: validate_file_def ea eb ec ALLOWED_EXTENSIONS_def MAX_FILE_SIZE_def)
  have l: "length (attachments ?u) < MAX_FILES" by (simp add: MAX_FILES_def)
  have t: "[?fa, ?fb, ?fc] = take (MAX_FILES - length (attachments ?u)) [?fa, ?fb, ?fc]"
    by (simp add: MAX_FILES_def)
  have o: "set [2, 0, 1::nat] = {..<length [?fa, ?fb, ?fc]}" by auto
  show ?thesis
    using uploadFiles_settles_in_any_order [OF l t v _ o, where outs =
          "[Inr \<lparr>att_id = ''10'', att_name = ''a.png'', stored_name = ''s10'',
                att_type = ''image/png'', att_size = 100, storage = ''local'', path = ''/u/s10''\<rparr>,
           Inl ''Upload failed'',
           Inr \<lparr>att_id = ''12'', att_name = ''c.txt'', stored_name = ''s12'',
                att_type = ''text/plain'', att_size = 300, storage = ''local'', path = ''/u/s12''\<rparr>]"]
    by simp
qed

section \<open>Properties of the feedback page\<close>

subsection \<open>Pagination\<close>

lemma totalPages_div: "totalPages tot = max 1 ((tot + 11) div 12)"
proof -
  have "\<lceil>real_of_int tot / real_of_int 12\<rceil> = - (- tot div 12)"
    by (rule ceiling_divide_eq_div)
  moreover have "- (- tot div 12) = (tot + 11) div 12" by linarith
  ultimately show ?thesis by (simp add: totalPages_def PAGE_SIZE_def)
qed

text \<open>
  Claim C9. The number of pages shown is the ceiling of \<open>listTotal / 12\<close>, and at least
  1; in integer arithmetic it is \<open>(listTotal + 11) div 12\<close>, and at least 1. Previous is
  disabled exactly on page 0 and Next exactly when the page index is at least
  \<open>totalPages - 1\<close>. With 30 items there are 3 pages, Next is disabled on page 2 and
  Previous on page 0.
\<close>

theorem totalPages_is_ceiling:
  "totalPages tot = max 1 \<lceil>real_of_int tot / 12\<rceil> \<and>
   totalPages tot = max 1 ((tot + 11) div 12) \<and>
   previous_disabled s = (page s = 0) \<and>
   next_disabled s = (page s \<ge> totalPages (listTotal s) - 1) \<and>
   totalPages 30 = 3 \<and>
   next_disabled (s\<lparr>listTotal := 30, page := 2\<rparr>) \<and>
   \<not> next_disabled (s\<lparr>listTotal := 30, page := 1\<rparr>) \<and>
   previous_disabled (s\<lparr>listTotal := 30, page := 0\<rparr>) \<and>
   \<not> previous_disabled (s\<lparr>listTotal := 30, page := 2\<rparr>)"
proof -
  have a: "totalPages tot = max 1 \<lceil>real_of_int tot / 12\<rceil>"
    by (simp add: totalPages_def PAGE_SIZE_def)
  have b: "totalPages 30 = 3" by (simp add: totalPages_div)
  show ?thesis
    using a totalPages_div [of tot] b
    by (simp add: previous_disabled_def next_disabled_def)
qed

subsection \<open>Filters\<close>

text \<open>
  Claim C1. The handlers of the type, status and priority selects set the page index to 0,
  and so does the hint of a quick entry point when it sets the sort mode. The handler of
  the sort select only sets the sort mode: on page 2, choosing "Most popular" leaves the
  page index at 2.
\<close>

theorem sort_onChange_keeps_page:
  "page (type_onChange v1 s) = 0 \<and>
   page (status_onChange v2 s) = 0 \<and>
   page (priority_onChange v3 s) = 0 \<and>
   page (hintAction_onClick t st (Some popular) s) = 0 \<and>
   sortBy (hintAction_onClick t st (Some popular) s) = popular \<and>
   page (sort_onChange popular (initial_page\<lparr>page := 2\<rparr>)) = 2 \<and>
   sortBy (sort_onChange popular (initial_page\<lparr>page := 2\<rparr>)) = popular"
  by (simp add: type_onChange_def status_onChange_def priority_onChange_def
      sort_onChange_def hintAction_onClick_def Let_def split: option.splits)

subsection \<open>Upvotes\<close>

lemma toggle_upvote_fields:
  "user_has_upvoted (toggle_upvote it) = (\<not> user_has_upvoted it) \<and>
   upvotes (toggle_upvote it) =
     (if user_has_upvoted it then max 0 (upvotes it - 1) else upvotes it + 1) \<and>
   toggle_upvote it =
     it\<lparr>user_has_upvoted := \<not> user_has_upvoted it,
        upvotes := (if user_has_upvoted it then max 0 (upvotes it - 1) else upvotes it + 1)\<rparr>"
  by (simp add: toggle_upvote_def Let_def)

text \<open>
  Claim C4. With a signed-in user, the part of \<open>handleUpvote\<close> that runs before the
  request is answered flips \<open>user_has_upvoted\<close> on every item whose id is the one
  clicked and changes its count by +1 when the flag becomes true, and by -1 but not below
  0 when it becomes false; the other items and the other fields stay, and the only
  request sent is the toggle. An item with flag false and 5 upvotes becomes true and 6.
  With no user, the only change is the toast asking to sign in: the items and the
  in-flight marker stay and no request is sent.
\<close>

theorem handleUpvote_optimistic:
  "(usr \<noteq> None \<longrightarrow>
      length (items (handleUpvote_start usr fid s)) = length (items s) \<and>
      (\<forall>i<length (items s).
         (item_id (items s ! i) = fid \<longrightarrow>
            user_has_upvoted (items (handleUpvote_start usr fid s) ! i)
              = (\<not> user_has_upvoted (items s ! i)) \<and>
            upvotes (items (handleUpvote_start usr fid s) ! i)
              = (if user_has_upvoted (items s ! i) then max 0 (upvotes (items s ! i) - 1)
                 else upvotes (items s ! i) + 1) \<and>
            items (handleUpvote_start usr fid s) ! i
              = (items s ! i)\<lparr>user_has_upvoted := \<not> user_has_upvoted (items s ! i),
                   upvotes := (if user_has_upvoted (items s ! i)
                               then max 0 (upvotes (items s ! i) - 1)
                               else upvotes (items s ! i) + 1)\<rparr>) \<and>
         (item_id (items s ! i) \<noteq> fid \<longrightarrow>
            items (handleUpvote_start usr fid s) ! i = items s ! i)) \<and>
      upvoteLoadingId (handleUpvote_start usr fid s) = Some fid \<and>
      trace (handleUpvote_start usr fid s) = trace s @ [Request (ToggleFeedbackUpvote fid)]) \<and>
   (usr = None \<longrightarrow>
      handleUpvote_start usr fid s =
        s\<lparr>toastId := toastId s + 1,
          toasts := toasts s @ [\<lparr>toast_id = toastId s + 1,
                                message = ''Sign in to upvote feedback.'',
                                variant = error\<rparr>]\<rparr> \<and>
      items (handleUpvote_start usr fid s) = items s \<and>
      upvoteLoadingId (handleUpvote_start usr fid s) = upvoteLoadingId s \<and>
      trace (handleUpvote_start usr fid s) = trace s) \<and>
   (\<not> user_has_upvoted it \<and> upvotes it = 5 \<longrightarrow>
      user_has_upvoted (toggle_upvote it) \<and> upvotes (toggle_upvote it) = 6)"
proof -
  have a: "usr \<noteq> None \<longrightarrow>
      items (handleUpvote_start usr fid s) =
        map (\<lambda>item. if item_id item \<noteq> fid then item else toggle_upvote item) (items s) \<and>
      upvoteLoadingId (handleUpvote_start usr fid s) = Some fid \<and>
      trace (handleUpvote_start usr fid s) = trace s @ [Request (ToggleFeedbackUpvote fid)]"
    by (auto simp: handleUpvote_start_def request_def)
  have b: "usr = None \<longrightarrow>
      handleUpvote_start usr fid s =
        s\<lparr>toastId := toastId s + 1,
          toasts := toasts s @ [\<lparr>toast_id = toastId s + 1,
                                message = ''Sign in to upvote feedback.'',
                                variant = error\<rparr>]\<rparr>"
    by (simp add: handleUpvote_start_def pushToast_def Let_def)
  have c: "\<not> user_has_upvoted it \<and> upvotes it = 5 \<longrightarrow>
      user_has_upvoted (toggle_upvote it) \<and> upvotes (toggle_upvote it) = 6"
    by (simp add: toggle_upvote_fields)
  show ?thesis
  proof (intro conjI)
    show "usr \<noteq> None \<longrightarrow>
      length (items (handleUpvote_start usr fid s)) = length (items s) \<and>
      (\<forall>i<length (items s).
         (item_id (items s ! i) = fid \<longrightarrow>
            user_has_upvoted (items (handleUpvote_start usr fid s) ! i)
              = (\<not> user_has_upvoted (items s ! i)) \<and>
            upvotes (items (handleUpvote_start usr fid s) ! i)
              = (if user_has_upvoted (items s ! i) then max 0 (upvotes (items s ! i) - 1)
                 else upvotes (items s ! i) + 1) \<and>
            items (handleUpvote_start usr fid s) ! i
              = (items s ! i)\<lparr>user_has_upvoted := \<not> user_has_upvoted (items s ! i),
                   upvotes := (if user_has_upvoted (items s ! i)
                               then max 0 (upvotes (items s ! i) - 1)
                               else upvotes (items s ! i) + 1)\<rparr>) \<and>
         (item_id (items s ! i) \<noteq> fid \<longrightarrow>
            items (handleUpvote_start usr fid s) ! i = items s ! i)) \<and>
      upvoteLoadingId (handleUpvote_start usr fid s) = Some fid \<and>
      trace (handleUpvote_start usr fid s) = trace s @ [Request (ToggleFeedbackUpvote fid)]"
      using a by (simp add: toggle_upvote_fields)
    show "usr = None \<longrightarrow>
      handleUpvote_start usr fid s =
        s\<lparr>toastId := toastId s + 1,
          toasts := toasts s @ [\<lparr>toast_id = toastId s + 1,
                                message = ''Sign in to upvote feedback.'',
                                variant = error\<rparr>]\<rparr> \<and>
      items (handleUpvote_start usr fid s) = items s \<and>
      upvoteLoadingId (handleUpvote_start usr fid s) = upvoteLoadingId s \<and>
      trace (handleUpvote_start usr fid s) = trace s"
      using b by simp
    show "\<not> user_has_upvoted it \<and> upvotes it = 5 \<longrightarrow>
      user_has_upvoted (toggle_upvote it) \<and> upvotes (toggle_upvote it) = 6"
      by (rule c)
  qed
qed

theorem handleUpvote_optimistic_witness:
  "items (handleUpvote_start (Some \<lparr>user_name = ''Ann'', user_email = ''ann@example.org''\<rparr>) ''f1''
      (initial_page\<lparr>items :=
         [\<lparr>item_id = ''f1'', item_type = bug_report, item_title = ''Crash on export'',
           item_description = ''Exporting a report crashes the app'',
           item_status = status_open, item_priority = None, upvotes = 5,
           user_has_upvoted = False, comment_count = 0, model_name = None,
           model_provider = None, admin_response = None, item_user_name = Some ''Bob'',
           item_created_at = ''2025-01-01T00:00:00Z''\<rparr>]\<rparr>)) ! 0
   = \<lparr>item_id = ''f1'', item_type = bug_report, item_title = ''Crash on export'',
      item_description = ''Exporting a report crashes the app'',
      item_status = status_open, item_priority = None, upvotes = 6,
      user_has_upvoted = True, comment_count = 0, model_name = None, model_provider = None,
      admin_response = None, item_user_name = Some ''Bob'',
      item_created_at = ''2025-01-01T00:00:00Z''\<rparr> \<and>
   trace (handleUpvote_start None ''f1'' initial_page) = trace initial_page"
  using handleUpvote_optimistic
          [of "Some \<lparr>user_name = ''Ann'', user_email = ''ann@example.org''\<rparr>" "''f1''"
              "initial_page\<lparr>items :=
                 [\<lparr>item_id = ''f1'', item_type = bug_report, item_title = ''Crash on export'',
                   item_description = ''Exporting a report crashes the app'',
                   item_status = status_open, item_priority = None, upvotes = 5,
                   user_has_upvoted = False, comment_count = 0, model_name = None,
                   model_provider = None, admin_response = None,
                   item_user_name = Some ''Bob'',
                   item_created_at = ''2025-01-01T00:00:00Z''\<rparr>]\<rparr>"]
        handleUpvote_optimistic [of None "''f1''" initial_page]
  by simp

subsection \<open>Debounced search\<close>

lemma setSearchInput_changed:
  "v \<noteq> searchInput s \<Longrightarrow>
     setSearchInput v s = s\<lparr>searchInput := v, debounce := Some DEBOUNCE_MS\<rparr>"
  by (simp add: setSearchInput_def)

lemma elapse_before:
  "debounce s = Some r \<Longrightarrow> d < r \<Longrightarrow> elapse d s = s\<lparr>debounce := Some (r - d)\<rparr>"
  by (simp add: elapse_def)

lemma elapse_after:
  "debounce s = Some r \<Longrightarrow> r \<le> d \<Longrightarrow>
     elapse d s = s\<lparr>searchValue := trim (searchInput s), page := 0, debounce := None\<rparr>"
  by (simp add: elapse_def debounce_fire_def)

text \<open>
  While the keystrokes follow each other by less than the delay, nothing is committed
  and the timeout set by the last keystroke is pending with its full delay.
\<close>

lemma typing_keeps_committed:
  assumes "changing (searchInput s0) (v0 # map snd ks)"
    and "\<forall>k\<in>set ks. fst k < DEBOUNCE_MS"
  shows "searchInput (typing ks (setSearchInput v0 s0)) = last (v0 # map snd ks) \<and>
         searchValue (typing ks (setSearchInput v0 s0)) = searchValue s0 \<and>
         page (typing ks (setSearchInput v0 s0)) = page s0 \<and>
         debounce (typing ks (setSearchInput v0 s0)) = Some DEBOUNCE_MS"
  using assms
proof (induction ks arbitrary: s0 v0)
  case Nil
  then show ?case by (simp add: setSearchInput_def)
next
  case (Cons k ks)
  obtain gap v where k: "k = (gap, v)" by (cases k)
  let ?s = "setSearchInput v0 s0"
  let ?s' = "elapse gap ?s"
  have s: "?s = s0\<lparr>searchInput := v0, debounce := Some DEBOUNCE_MS\<rparr>"
    using Cons.prems(1) by (simp add: setSearchInput_def)
  have gap: "gap < DEBOUNCE_MS" using Cons.prems(2) k by simp
  have s': "?s' = s0\<lparr>searchInput := v0, debounce := Some (DEBOUNCE_MS - gap)\<rparr>"
    using gap by (simp add: s elapse_def)
  have ch: "changing (searchInput ?s') (v # map snd ks)"
    using Cons.prems(1) k by (simp add: s')
  have gaps: "\<forall>k\<in>set ks. fst k < DEBOUNCE_MS" using Cons.prems(2) by simp
  have "typing (k # ks) ?s = typing ks (setSearchInput v ?s')" by (simp add: k)
  then show ?case
    using Cons.IH [OF ch gaps] by (simp add: s' k)
qed

text \<open>
  Claim C2, amended. Take keystrokes that each change the text of the search input and that
  follow each other by less than 400 ms. Until 400 ms have passed since the last of them,
  the committed search value and the page index are what they were before the first one.
  From 400 ms on, the committed value is the last text typed with the white space at its
  ends removed, and the page index is 0.
\<close>

theorem search_commits_trimmed_after_delay:
  assumes "changing (searchInput s0) (v0 # map snd ks)"
    and "\<forall>k\<in>set ks. fst k < DEBOUNCE_MS"
  shows "searchInput (typing ks (setSearchInput v0 s0)) = last (v0 # map snd ks) \<and>
         (\<forall>d<DEBOUNCE_MS.
            searchValue (elapse d (typing ks (setSearchInput v0 s0))) = searchValue s0 \<and>
            page (elapse d (typing ks (setSearchInput v0 s0))) = page s0) \<and>
         (\<forall>d\<ge>DEBOUNCE_MS.
            searchValue (elapse d (typing ks (setSearchInput v0 s0)))
              = trim (last (v0 # map snd ks)) \<and>
            page (elapse d (typing ks (setSearchInput v0 s0))) = 0) \<and>
         DEBOUNCE_MS = 400"
proof -
  let ?s = "typing ks (setSearchInput v0 s0)"
  have inv: "searchInput ?s = last (v0 # map snd ks) \<and> searchValue ?s = searchValue s0 \<and>
             page ?s = page s0 \<and> debounce ?s = Some DEBOUNCE_MS"
    using typing_keeps_committed [OF assms] .
  have early: "\<forall>d<DEBOUNCE_MS. searchValue (elapse d ?s) = searchValue s0 \<and>
                 page (elapse d ?s) = page s0"
    using inv by (simp add: elapse_before [of ?s DEBOUNCE_MS])
  have late: "\<forall>d\<ge>DEBOUNCE_MS. searchValue (elapse d ?s) = trim (last (v0 # map snd ks)) \<and>
                 page (elapse d ?s) = 0"
    using inv by (simp add: elapse_after [of ?s DEBOUNCE_MS])
  show ?thesis using inv early late by (simp add: DEBOUNCE_MS_def)
qed

theorem search_commits_trimmed_after_delay_witness:
  "searchValue (elapse 399 (typing [(100, ''ab''), (100, ''abc'')]
      (setSearchInput ''a'' (initial_page\<lparr>page := 2\<rparr>)))) = [] \<and>
   page (elapse 399 (typing [(100, ''ab''), (100, ''abc'')]
      (setSearchInput ''a'' (initial_page\<lparr>page := 2\<rparr>)))) = 2 \<and>
   searchValue (elapse 400 (typing [(100, ''ab''), (100, ''abc'')]
      (setSearchInput ''a'' (initial_page\<lparr>page := 2\<rparr>)))) = ''abc'' \<and>
   page (elapse 400 (typing [(100, ''ab''), (100, ''abc'')]
      (setSearchInput ''a'' (initial_page\<lparr>page := 2\<rparr>)))) = 0"
proof -
  have ch: "changing (searchInput (initial_page\<lparr>page := 2\<rparr>))
              (''a'' # map snd [(100::nat, ''ab''), (100, ''abc'')])"
    by (simp add: initial_page_def)
  have gaps: "\<forall>k\<in>set [(100::nat, ''ab''), (100, ''abc'')]. fst k < DEBOUNCE_MS"
    by (simp add: DEBOUNCE_MS_def)
  have t: "trim ''abc'' = ''abc''" by code_simp
  have i: "searchValue (initial_page\<lparr>page := 2\<rparr>) = []" by (simp add: initial_page_def)
  show ?thesis
    using search_commits_trimmed_after_delay [OF ch gaps] t i
    by (simp add: DEBOUNCE_MS_def)
qed

text \<open>
  Claim C2 as stated fails: after "a", "ab" and "ab " (with a space at the end) have been
  typed 100 ms apart and 400 ms have passed, the committed value is not the text typed
  last.
\<close>

theorem search_commit_not_typed_string_counterexample:
  "searchValue (elapse 400 (typing [(100, ''ab''), (100, ''ab '')]
      (setSearchInput ''a'' initial_page))) \<noteq> ''ab ''"
proof -
  have "typing [(100, ''ab''), (100, ''ab '')] (setSearchInput ''a'' initial_page)
          = initial_page\<lparr>searchInput := ''ab '', debounce := Some 400\<rparr>"
    by (simp add: setSearchInput_def elapse_def initial_page_def DEBOUNCE_MS_def)
  moreover have "trim ''ab '' = ''ab''" by code_simp
  ultimately show ?thesis by (simp add: elapse_def debounce_fire_def initial_page_def)
qed

subsection \<open>Posting a comment\<close>

lemma handleSubmitComment_empty:
  "comment_of fid s = [] \<Longrightarrow> handleSubmitComment usr fid post_out get_out list_out s = s"
  by (simp add: handleSubmitComment_def)

lemma trace_pushToast: "trace (pushToast msg v s) = trace s"
  by (simp add: pushToast_def Let_def)

lemma trace_fetchList_settled: "trace (fetchList_settled out s) = trace s"
  by (simp add: fetchList_settled_def trace_pushToast split: sum.splits prod.splits)

lemma commentDrafts_pushToast: "commentDrafts (pushToast msg v s) = commentDrafts s"
  by (simp add: pushToast_def Let_def)

lemma commentsById_pushToast: "commentsById (pushToast msg v s) = commentsById s"
  by (simp add: pushToast_def Let_def)

lemma commentDrafts_fetchList_settled: "commentDrafts (fetchList_settled out s) = commentDrafts s"
  by (simp add: fetchList_settled_def commentDrafts_pushToast split: sum.splits prod.splits)

lemma commentsById_fetchList_settled: "commentsById (fetchList_settled out s) = commentsById s"
  by (simp add: fetchList_settled_def commentsById_pushToast split: sum.splits prod.splits)

lemma handleSubmitComment_success:
  assumes "comment_of fid s \<noteq> []"
  shows "trace (handleSubmitComment usr fid (Inr ok) (Inr its) list_out s) =
           trace s @ [Request (AddFeedbackComment fid (comment_of fid s) (submitter_name usr)),
                      Request (GetFeedbackComments fid),
                      CommentsWritten fid its,
                      DraftWritten fid [],
                      Request (ListFeedback (list_query_of s))]"
    and "commentsById (handleSubmitComment usr fid (Inr ok) (Inr its) list_out s) fid = Some its"
    and "commentDrafts (handleSubmitComment usr fid (Inr ok) (Inr its) list_out s) fid = Some []"
  using assms
  by (simp_all add: handleSubmitComment_def handleSubmitComment_start_def
      handleSubmitComment_posted_def handleSubmitComment_fetched_def
      handleSubmitComment_listed_def fetchList_start_def request_def
      setCommentsById_def setCommentDrafts_def list_query_of_def Let_def
      trace_pushToast trace_fetchList_settled commentDrafts_pushToast commentsById_pushToast
      commentDrafts_fetchList_settled commentsById_fetchList_settled)

lemma handleSubmitComment_refetch_fails:
  assumes "comment_of fid s \<noteq> []"
  shows "trace (handleSubmitComment usr fid (Inr ok) (Inl err) list_out s) =
           trace s @ [Request (AddFeedbackComment fid (comment_of fid s) (submitter_name usr)),
                      Request (GetFeedbackComments fid)]"
    and "commentsById (handleSubmitComment usr fid (Inr ok) (Inl err) list_out s) = commentsById s"
    and "commentDrafts (handleSubmitComment usr fid (Inr ok) (Inl err) list_out s) = commentDrafts s"
  using assms
  by (simp_all add: handleSubmitComment_def handleSubmitComment_start_def
      handleSubmitComment_posted_def handleSubmitComment_failed_def request_def Let_def
      trace_pushToast commentDrafts_pushToast commentsById_pushToast)

lemma handleSubmitComment_post_fails:
  assumes "comment_of fid s \<noteq> []"
  shows "trace (handleSubmitComment usr fid (Inl err) get_out list_out s) =
           trace s @ [Request (AddFeedbackComment fid (comment_of fid s) (submitter_name usr))]"
    and "commentsById (handleSubmitComment usr fid (Inl err) get_out list_out s) = commentsById s"
    and "commentDrafts (handleSubmitComment usr fid (Inl err) get_out list_out s) = commentDrafts s"
  using assms
  by (simp_all add: handleSubmitComment_def handleSubmitComment_start_def
      handleSubmitComment_failed_def request_def Let_def
      trace_pushToast commentDrafts_pushToast commentsById_pushToast)

text \<open>
  Claim C3, amended. Submitting a comment whose trimmed draft is not empty posts the
  comment, then requests the comments of the item, then replaces the cache entry, then
  clears the draft of the item, and only then requests the list, in this order. When
  the post fails nothing else is requested or written; when the request for the comments
  fails, the cache, the drafts and the list are left alone. With an empty trimmed draft
  the state, trace included, is unchanged.
\<close>

theorem handleSubmitComment_order:
  "(comment_of fid s \<noteq> [] \<longrightarrow>
      trace (handleSubmitComment usr fid (Inr ok) (Inr its) list_out s) =
        trace s @ [Request (AddFeedbackComment fid (comment_of fid s) (submitter_name usr)),
                   Request (GetFeedbackComments fid),
                   CommentsWritten fid its,
                   DraftWritten fid [],
                   Request (ListFeedback (list_query_of s))] \<and>
      commentsById (handleSubmitComment usr fid (Inr ok) (Inr its) list_out s) fid = Some its \<and>
      commentDrafts (handleSubmitComment usr fid (Inr ok) (Inr its) list_out s) fid = Some [] \<and>
      trace (handleSubmitComment usr fid (Inr ok) (Inl err) list_out s) =
        trace s @ [Request (AddFeedbackComment fid (comment_of fid s) (submitter_name usr)),
                   Request (GetFeedbackComments fid)] \<and>
      commentsById (handleSubmitComment usr fid (Inr ok) (Inl err) list_out s) = commentsById s \<and>
      commentDrafts (handleSubmitComment usr fid (Inr ok) (Inl err) list_out s) = commentDrafts s \<and>
      trace (handleSubmitComment usr fid (Inl err) get_out list_out s) =
        trace s @ [Request (AddFeedbackComment fid (comment_of fid s) (submitter_name usr))] \<and>
      commentsById (handleSubmitComment usr fid (Inl err) get_out list_out s) = commentsById s \<and>
      commentDrafts (handleSubmitComment usr fid (Inl err) get_out list_out s) = commentDrafts s) \<and>
   (comment_of fid s = [] \<longrightarrow>
      handleSubmitComment usr fid post_out get_out list_out s = s)"
  using handleSubmitComment_success [of fid s usr ok its list_out]
    handleSubmitComment_refetch_fails [of fid s usr ok err list_out]
    handleSubmitComment_post_fails [of fid s usr err get_out list_out]
    handleSubmitComment_empty [of fid s usr post_out get_out list_out]
  by blast

theorem handleSubmitComment_order_witness:
  "trace (handleSubmitComment (Some \<lparr>user_name = ''Ann'', user_email = ''ann@example.org''\<rparr>)
            ''f1'' (Inr ()) (Inr []) (Inr ([], 0))
            (initial_page\<lparr>commentDrafts := [''f1'' \<mapsto> '' hello '']\<rparr>)) =
     [Request (AddFeedbackComment ''f1'' ''hello'' (Some ''Ann'')),
      Request (GetFeedbackComments ''f1''),
      CommentsWritten ''f1'' [],
      DraftWritten ''f1'' [],
      Request (ListFeedback
        \<lparr>q_type = filter_all, q_status = filter_all, q_priority = filter_all,
         q_sortBy = recent, q_search = [], q_limit = 12, q_offset = 0\<rparr>)] \<and>
   handleSubmitComment None ''f1'' (Inr ()) (Inr []) (Inr ([], 0))
     (initial_page\<lparr>commentDrafts := [''f1'' \<mapsto> ''  '']\<rparr>)
   = initial_page\<lparr>commentDrafts := [''f1'' \<mapsto> ''  '']\<rparr>"
proof -
  have t: "trim '' hello '' = ''hello''" "trim ''  '' = []" by code_simp+
  have c1: "comment_of ''f1'' (initial_page\<lparr>commentDrafts := [''f1'' \<mapsto> '' hello '']\<rparr>) = ''hello''"
    by (simp add: comment_of_def t)
  have c2: "comment_of ''f1'' (initial_page\<lparr>commentDrafts := [''f1'' \<mapsto> ''  '']\<rparr>) = []"
    by (simp add: comment_of_def t)
  have q: "list_query_of (initial_page\<lparr>commentDrafts := [''f1'' \<mapsto> '' hello '']\<rparr>) =
        \<lparr>q_type = filter_all, q_status = filter_all, q_priority = filter_all,
         q_sortBy = recent, q_search = [], q_limit = 12, q_offset = 0\<rparr>"
    by (simp add: list_query_of_def initial_page_def PAGE_SIZE_def)
  have tr: "trace (initial_page\<lparr>commentDrafts := [''f1'' \<mapsto> '' hello '']\<rparr>) = []"
    by (simp add: initial_page_def)
  show ?thesis
    using handleSubmitComment_order
            [of "''f1''" "initial_page\<lparr>commentDrafts := [''f1'' \<mapsto> '' hello '']\<rparr>"
                "Some \<lparr>user_name = ''Ann'', user_email = ''ann@example.org''\<rparr>" "()" "[]"
                "Inr ([], 0)" "''x''" "Inr []" "Inr ()"]
          handleSubmitComment_order
            [of "''f1''" "initial_page\<lparr>commentDrafts := [''f1'' \<mapsto> ''  '']\<rparr>"
                None "()" "[]" "Inr ([], 0)" "''x''" "Inr []" "Inr ()"]
    by (simp add: c1 c2 q tr submitter_name_def)
qed

text \<open>
  Claim C3 as stated fails: in a submission where every request succeeds, the draft is not
  cleared after the list has been requested. It is cleared before.
\<close>

theorem draft_cleared_before_list_refetch_counterexample:
  "\<not> precedes
       (Request (ListFeedback
          \<lparr>q_type = filter_all, q_status = filter_all, q_priority = filter_all,
           q_sortBy = recent, q_search = [], q_limit = 12, q_offset = 0\<rparr>))
       (DraftWritten ''f1'' [])
       (trace (handleSubmitComment
                 (Some \<lparr>user_name = ''Ann'', user_email = ''ann@example.org''\<rparr>)
                 ''f1'' (Inr ()) (Inr []) (Inr ([], 0))
                 (initial_page\<lparr>commentDrafts := [''f1'' \<mapsto> '' hello '']\<rparr>)))"
proof -
  have t: "trim '' hello '' = ''hello''" by code_simp
  have c1: "comment_of ''f1'' (initial_page\<lparr>commentDrafts := [''f1'' \<mapsto> '' hello '']\<rparr>) = ''hello''"
    by (simp add: comment_of_def t)
  have q: "list_query_of (initial_page\<lparr>commentDrafts := [''f1'' \<mapsto> '' hello '']\<rparr>) =
        \<lparr>q_type = filter_all, q_status = filter_all, q_priority = filter_all,
         q_sortBy = recent, q_search = [], q_limit = 12, q_offset = 0\<rparr>"
    by (simp add: list_query_of_def initial_page_def PAGE_SIZE_def)
  have tr: "trace (initial_page\<lparr>commentDrafts := [''f1'' \<mapsto> '' hello '']\<rparr>) = []"
    by (simp add: initial_page_def)
  have "trace (handleSubmitComment
                 (Some \<lparr>user_name = ''Ann'', user_email = ''ann@example.org''\<rparr>)
                 ''f1'' (Inr ()) (Inr []) (Inr ([], 0))
                 (initial_page\<lparr>commentDrafts := [''f1'' \<mapsto> '' hello '']\<rparr>)) =
     [Request (AddFeedbackComment ''f1'' ''hello'' (Some ''Ann'')),
      Request (GetFeedbackComments ''f1''),
      CommentsWritten ''f1'' [],
      DraftWritten ''f1'' [],
      Request (ListFeedback
        \<lparr>q_type = filter_all, q_status = filter_all, q_priority = filter_all,
         q_sortBy = recent, q_search = [], q_limit = 12, q_offset = 0\<rparr>)]"
    using handleSubmitComment_success(1)
            [of "''f1''" "initial_page\<lparr>commentDrafts := [''f1'' \<mapsto> '' hello '']\<rparr>"
                "Some \<lparr>user_name = ''Ann'', user_email = ''ann@example.org''\<rparr>" "()" "[]"
                "Inr ([], 0)"]
    by (simp add: c1 q tr submitter_name_def)
  then show ?thesis by (simp add: precedes_def)
qed

section \<open>Properties of the submission form\<close>

text \<open>
  Claim C7. Submit is enabled exactly when no submission is in flight, the trimmed title
  has at least 3 code units, the trimmed description has at least 10, and, for the type
  \<open>model_request\<close> only, the model name or the model provider is not empty after
  trimming.
\<close>

theorem canSubmit_iff:
  "canSubmit isSubmitting f \<longleftrightarrow>
     \<not> isSubmitting \<and> 3 \<le> length (trim (title f)) \<and> 10 \<le> length (trim (description f)) \<and>
     (formType f = model_request \<longrightarrow>
        trim (modelName f) \<noteq> [] \<or> trim (modelProvider f) \<noteq> [])"
  by (auto simp: canSubmit_def modelInfoRequired_def)

theorem canSubmit_iff_witness:
  "canSubmit False
     ((initial_form model_request ''Ann'' ''ann@example.org'' ''local'')
        \<lparr>title := ''abc'', description := ''0123456789'', modelName := ''gpt-4o''\<rparr>) \<and>
   \<not> canSubmit False
     ((initial_form model_request ''Ann'' ''ann@example.org'' ''local'')
        \<lparr>title := ''abc'', description := ''0123456789''\<rparr>) \<and>
   \<not> canSubmit False
     ((initial_form general ''Ann'' ''ann@example.org'' ''local'')
        \<lparr>title := ''ab'', description := ''0123456789''\<rparr>) \<and>
   canSubmit False
     ((initial_form general ''Ann'' ''ann@example.org'' ''local'')
        \<lparr>title := ''abc'', description := ''0123456789''\<rparr>)"
proof -
  have t: "trim ''abc'' = ''abc''" "trim ''ab'' = ''ab''" "trim ''0123456789'' = ''0123456789''"
    "trim ''gpt-4o'' = ''gpt-4o''" "trim [] = []"
    by code_simp+
  show ?thesis
    using canSubmit_iff [of False "(initial_form model_request ''Ann'' ''ann@example.org'' ''local'')
        \<lparr>title := ''abc'', description := ''0123456789'', modelName := ''gpt-4o''\<rparr>"]
      canSubmit_iff [of False "(initial_form model_request ''Ann'' ''ann@example.org'' ''local'')
        \<lparr>title := ''abc'', description := ''0123456789''\<rparr>"]
      canSubmit_iff [of False "(initial_form general ''Ann'' ''ann@example.org'' ''local'')
        \<lparr>title := ''ab'', description := ''0123456789''\<rparr>"]
      canSubmit_iff [of False "(initial_form general ''Ann'' ''ann@example.org'' ''local'')
        \<lparr>title := ''abc'', description := ''0123456789''\<rparr>"]
    by (simp add: initial_form_def t)
qed

text \<open>
  Claim C8. When the selected type changes, the metadata map, the reference link and the
  attached files are emptied, and the title, the description, the contact name and the
  contact email keep their values. Setting \<open>use_case\<close> on a model request, switching to
  bug report and back gives empty metadata.
\<close>

theorem setFormType_resets_per_type_fields:
  "(t \<noteq> formType f \<longrightarrow>
      formType (setFormType t f) = t \<and>
      meta (setFormType t f) = Map.empty \<and>
      referenceUrl (setFormType t f) = [] \<and>
      fileAttachments (setFormType t f) = [] \<and>
      title (setFormType t f) = title f \<and>
      description (setFormType t f) = description f \<and>
      name (setFormType t f) = name f \<and>
      email (setFormType t f) = email f) \<and>
   (formType f = model_request \<longrightarrow>
      meta (setFormType model_request
              (setFormType bug_report (updateMeta ''use_case'' v f))) = Map.empty)"
  by (simp add: setFormType_def reset_per_type_fields_def updateMeta_def)

theorem setFormType_resets_per_type_fields_witness:
  "meta (setFormType model_request (setFormType bug_report
           (updateMeta ''use_case'' ''batch scoring''
              (initial_form model_request ''Ann'' ''ann@example.org'' ''local'')))) = Map.empty \<and>
   setFormType bug_report
     ((initial_form model_request ''Ann'' ''ann@example.org'' ''local'')
        \<lparr>title := ''Crash on export'', referenceUrl := ''https://example.org/log'',
         meta := [''use_case'' \<mapsto> ''batch scoring'']\<rparr>)
   = (initial_form bug_report ''Ann'' ''ann@example.org'' ''local'')
        \<lparr>title := ''Crash on export''\<rparr>"
  using setFormType_resets_per_type_fields
          [of bug_report "(initial_form model_request ''Ann'' ''ann@example.org'' ''local'')
              \<lparr>title := ''Crash on export'', referenceUrl := ''https://example.org/log'',
               meta := [''use_case'' \<mapsto> ''batch scoring'']\<rparr>" "''x''"]
        setFormType_resets_per_type_fields
          [of model_request "initial_form model_request ''Ann'' ''ann@example.org'' ''local''"
              "''batch scoring''"]
  by (simp add: initial_form_def setFormType_def reset_per_type_fields_def)

end
